theory Spec2Isabelle
  imports Main "HOL-Library.Word"
begin

unbundle bit_operations_syntax

section \<open>Values and failures\<close>

text \<open>
  The builder \<^verbatim>\<open>build_npdm.py\<close> works on the value that \<^verbatim>\<open>json.load\<close> returns. A decoded
  JSON value is \<^verbatim>\<open>None\<close>, a \<^verbatim>\<open>bool\<close>, an unbounded \<^verbatim>\<open>int\<close>, a \<^verbatim>\<open>float\<close>, a \<^verbatim>\<open>str\<close>, a
  \<^verbatim>\<open>list\<close> or a \<^verbatim>\<open>dict\<close> with string keys. A \<^verbatim>\<open>dict\<close> is kept as the list of its items in
  iteration order; the keys of a loaded dictionary are pairwise distinct. The program never
  looks at the value of a \<^verbatim>\<open>float\<close> (every type test rejects it), so \<open>JFloat\<close> carries
  none. A \<open>string\<close> is a text whose code points lie below 256, one character for each
  code point. A text with a code point from 256 on has no counterpart here: every statement
  below is about configurations whose texts stay below 256.
\<close>

datatype json =
    JNull
  | JBool bool
  | JInt int
  | JFloat
  | JString string
  | JArray "json list"
  | JObject "(string \<times> json) list"

text \<open>
  Every way the program stops early: \<^verbatim>\<open>abort(msg)\<close> prints the message and calls
  \<^verbatim>\<open>sys.exit(1)\<close>; the other constructors are the Python exceptions that the code can raise.
\<close>

datatype error =
    SysExit string
  | TypeError
  | ValueError
  | NameError
  | KeyError
  | IndexError
  | ZeroDivisionError
  | StructError
  | UnicodeEncodeError

type_synonym 'a result = "error + 'a"

definition ebind :: "'a result \<Rightarrow> ('a \<Rightarrow> 'b result) \<Rightarrow> 'b result" where
  "ebind m f = (case m of Inl e \<Rightarrow> Inl e | Inr x \<Rightarrow> f x)"

definition abort :: "string \<Rightarrow> 'a result" where
  "abort msg = Inl (SysExit msg)"

definition abort_unless :: "bool \<Rightarrow> string \<Rightarrow> unit result" where
  "abort_unless cond msg = (if \<not> cond then abort msg else Inr ())"

section \<open>BinaryWriter\<close>

datatype ByteOrder = little | big

type_synonym byte = "8 word"

record BinaryWriter =
  stream :: "byte list"
  byte_order :: ByteOrder
  position :: nat

text \<open>\<^verbatim>\<open>BinaryWriter()\<close>: every writer of the builder is made with the default arguments.\<close>

definition BinaryWriter_init :: BinaryWriter where
  "BinaryWriter_init = \<lparr>stream = [], byte_order = little, position = 0\<rparr>"

definition fill_bytes :: "BinaryWriter \<Rightarrow> int \<Rightarrow> bool \<Rightarrow> BinaryWriter" where
  "fill_bytes w offset relative =
     (let bytes_to_add = offset - int (length (stream w));
          bytes_to_add = (if relative then bytes_to_add + int (position w) else bytes_to_add)
      in if bytes_to_add > 0
         then w\<lparr>stream := stream w @ replicate (nat bytes_to_add) 0\<rparr>
         else w)"

text \<open>
  Every call of \<^verbatim>\<open>seek\<close> in the builder passes an offset that is not negative, so the cursor
  is a natural number.
\<close>

definition seek :: "BinaryWriter \<Rightarrow> nat \<Rightarrow> bool \<Rightarrow> BinaryWriter" where
  "seek w offset relative =
     (let w = (if relative then w\<lparr>position := position w + offset\<rparr>
               else w\<lparr>position := offset\<rparr>)
      in fill_bytes w 0 True)"

definition seek_rel :: "BinaryWriter \<Rightarrow> nat \<Rightarrow> BinaryWriter" where
  "seek_rel w offset = seek w offset True"

definition align :: "BinaryWriter \<Rightarrow> nat \<Rightarrow> BinaryWriter result" where
  "align w alignment =
     (if alignment = 0 then Inl ZeroDivisionError
      else let pos = int (position w);
               delta = (- pos mod int alignment + int alignment) mod int alignment
           in Inr (seek w (nat delta) True))"

text \<open>
  The loop of \<^verbatim>\<open>write\<close>: \<^verbatim>\<open>self.stream[self._position] = byte\<close> raises \<^verbatim>\<open>IndexError\<close> past
  the end of the buffer.
\<close>

fun write_loop :: "BinaryWriter \<Rightarrow> byte list \<Rightarrow> BinaryWriter result" where
  "write_loop w [] = Inr w"
| "write_loop w (b # raw) =
     (if position w < length (stream w)
      then write_loop (w\<lparr>stream := (stream w)[position w := b],
                         position := position w + 1\<rparr>) raw
      else Inl IndexError)"

text \<open>The method \<^verbatim>\<open>write\<close>; the name is taken in Isabelle, hence \<open>write_raw\<close>.\<close>

definition write_raw :: "BinaryWriter \<Rightarrow> byte list \<Rightarrow> BinaryWriter result" where
  "write_raw w raw = write_loop (fill_bytes w (int (length raw)) True) raw"

text \<open>
  \<^verbatim>\<open>struct.pack\<close> of an unsigned integer of \<open>n\<close> bytes: \<^verbatim>\<open>struct.error\<close> outside
  \<open>[0, 2 ^ (8 * n))\<close>, the bytes in the writer's order otherwise.
\<close>

definition le_bytes :: "nat \<Rightarrow> int \<Rightarrow> byte list" where
  "le_bytes n v = map (\<lambda>i. word_of_int (v div 256 ^ i mod 256)) [0..<n]"

definition pack_uint :: "ByteOrder \<Rightarrow> nat \<Rightarrow> int \<Rightarrow> byte list result" where
  "pack_uint order n v =
     (if 0 \<le> v \<and> v < 2 ^ (8 * n)
      then Inr (case order of little \<Rightarrow> le_bytes n v | big \<Rightarrow> rev (le_bytes n v))
      else Inl StructError)"

definition write_uint :: "BinaryWriter \<Rightarrow> nat \<Rightarrow> int \<Rightarrow> BinaryWriter result" where
  "write_uint w n v = ebind (pack_uint (byte_order w) n v) (write_raw w)"

definition write_u8 :: "BinaryWriter \<Rightarrow> int \<Rightarrow> BinaryWriter result" where
  "write_u8 w v = write_uint w 1 v"

definition write_u32 :: "BinaryWriter \<Rightarrow> int \<Rightarrow> BinaryWriter result" where
  "write_u32 w v = write_uint w 4 v"

definition write_u64 :: "BinaryWriter \<Rightarrow> int \<Rightarrow> BinaryWriter result" where
  "write_u64 w v = write_uint w 8 v"

definition write_bytes :: "BinaryWriter \<Rightarrow> byte list \<Rightarrow> BinaryWriter result" where
  "write_bytes w v = write_raw w v"

definition write_sub :: "BinaryWriter \<Rightarrow> BinaryWriter \<Rightarrow> BinaryWriter result" where
  "write_sub w other = write_bytes w (stream other)"

text \<open>\<^verbatim>\<open>str.encode("ascii")\<close> raises \<^verbatim>\<open>UnicodeEncodeError\<close> on a code point from 128 on.\<close>

definition encode_ascii :: "string \<Rightarrow> byte list result" where
  "encode_ascii s =
     (if \<forall>c \<in> set s. of_char c < (128 :: nat)
      then Inr (map (\<lambda>c. of_char c) s)
      else Inl UnicodeEncodeError)"

text \<open>
  \<^verbatim>\<open>write_string(value, max_len)\<close>: with a positive \<^verbatim>\<open>max_len\<close> the text is cut to that
  length and padded on the right with NUL to that width.
\<close>

definition write_string :: "BinaryWriter \<Rightarrow> string \<Rightarrow> int \<Rightarrow> BinaryWriter result" where
  "write_string w v max_len =
     (if max_len > 0
      then let v = take (nat max_len) v
           in ebind (encode_ascii (v @ replicate (nat max_len - length v) (CHR 0x00))) (write_raw w)
      else ebind (encode_ascii v) (write_raw w))"

section \<open>Python built-ins used by the readers\<close>

text \<open>
  \<^verbatim>\<open>int(text, 16)\<close>: white space around the number, an optional sign, an optional prefix
  \<^verbatim>\<open>0x\<close> (which one underscore may follow), then hexadecimal digits where single
  underscores may separate digits; \<^verbatim>\<open>ValueError\<close> for any other text.

  The white space that \<^verbatim>\<open>int\<close> skips is not the one of \<^verbatim>\<open>str.isspace\<close>: \<^verbatim>\<open>int\<close> first
  turns every code point from 128 on that is Unicode white space into a blank and every one
  that is a Unicode decimal digit into its ASCII digit, then skips the C white space, the
  codes 9 to 13 and 32. Below 256 the code points turned into a blank are 133 and 160, and
  none from 128 on is a decimal digit. The separators 28 to 31, white space for
  \<^verbatim>\<open>str.isspace\<close>, are not skipped: on the code point 28 followed by the digit 1,
  \<^verbatim>\<open>int\<close> raises \<^verbatim>\<open>ValueError\<close>.
\<close>

definition py_int_space :: "char \<Rightarrow> bool" where
  "py_int_space c = ((of_char c :: nat) \<in> {9, 10, 11, 12, 13, 32, 133, 160})"

definition hex_digit_value :: "char \<Rightarrow> int option" where
  "hex_digit_value c =
     (let n = (of_char c :: nat)
      in if 48 \<le> n \<and> n \<le> 57 then Some (int n - 48)
         else if 97 \<le> n \<and> n \<le> 102 then Some (int n - 87)
         else if 65 \<le> n \<and> n \<le> 70 then Some (int n - 55)
         else None)"

fun hex_body :: "string \<Rightarrow> int \<Rightarrow> bool \<Rightarrow> (int \<times> string) option" where
  "hex_body [] acc prev_underscore = (if prev_underscore then None else Some (acc, []))"
| "hex_body (c # cs) acc prev_underscore =
     (if c = CHR ''_''
      then (if prev_underscore then None else hex_body cs acc True)
      else (case hex_digit_value c of
              Some d \<Rightarrow> hex_body cs (16 * acc + d) False
            | None \<Rightarrow> if prev_underscore then None else Some (acc, c # cs)))"

definition py_int16 :: "string \<Rightarrow> int result" where
  "py_int16 text =
     (let s = dropWhile py_int_space text;
          (sign, s) = (case s of
                         [] \<Rightarrow> (1, s)
                       | c # r \<Rightarrow> if c = CHR ''+'' then (1, r)
                                  else if c = CHR ''-'' then (- 1, r) else (1, s));
          s = (case s of
                 a # b # r \<Rightarrow>
                   if a = CHR ''0'' \<and> (b = CHR ''x'' \<or> b = CHR ''X'')
                   then (case r of [] \<Rightarrow> r | u # r' \<Rightarrow> if u = CHR ''_'' then r' else r)
                   else s
               | _ \<Rightarrow> s)
      in case s of
           [] \<Rightarrow> Inl ValueError
         | c # _ \<Rightarrow>
             if c = CHR ''_'' \<or> hex_digit_value c = None then Inl ValueError
             else (case hex_body s 0 False of
                     None \<Rightarrow> Inl ValueError
                   | Some (v, rest) \<Rightarrow>
                       if dropWhile py_int_space rest = [] then Inr (sign * v)
                       else Inl ValueError))"

text \<open>The format \<^verbatim>\<open>{:#x}\<close> of the error messages.\<close>

fun hex_digits_of :: "nat \<Rightarrow> string" where
  "hex_digits_of n =
     (if n < 16 then [''0123456789abcdef'' ! n]
      else hex_digits_of (n div 16) @ [''0123456789abcdef'' ! (n mod 16)])"

definition py_hex :: "int \<Rightarrow> string" where
  "py_hex v = (if v < 0 then ''-0x'' @ hex_digits_of (nat (- v)) else ''0x'' @ hex_digits_of (nat v))"

text \<open>\<^verbatim>\<open>key in json\<close> and \<^verbatim>\<open>json[key]\<close> for a string key, on any decoded value.\<close>

fun is_substring :: "string \<Rightarrow> string \<Rightarrow> bool" where
  "is_substring k [] = (k = [])"
| "is_substring k (c # cs) = (take (length k) (c # cs) = k \<or> is_substring k cs)"

fun json_contains :: "json \<Rightarrow> string \<Rightarrow> bool result" where
  "json_contains (JObject items) key = Inr (key \<in> fst ` set items)"
| "json_contains (JArray xs) key = Inr (JString key \<in> set xs)"
| "json_contains (JString s) key = Inr (is_substring key s)"
| "json_contains _ key = Inl TypeError"

fun json_getitem :: "json \<Rightarrow> string \<Rightarrow> json result" where
  "json_getitem (JObject items) key =
     (case map_of items key of None \<Rightarrow> Inl KeyError | Some v \<Rightarrow> Inr v)"
| "json_getitem _ key = Inl TypeError"

section \<open>The typed readers\<close>

text \<open>
  \<^verbatim>\<open>json_read_value(json, keys, default)\<close> takes one key or a tuple of keys, here always a
  list. When no key is present it names the field by \<^verbatim>\<open>key[0]\<close>, the first character of the
  last key tried.
\<close>

fun json_read_value_loop :: "json \<Rightarrow> string list \<Rightarrow> (string \<times> json) option result" where
  "json_read_value_loop j [] = Inr None"
| "json_read_value_loop j (key # keys) =
     ebind (json_contains j key) (\<lambda>found.
       if found then ebind (json_getitem j key) (\<lambda>v. Inr (Some (key, v)))
       else json_read_value_loop j keys)"

definition json_read_value :: "json \<Rightarrow> string list \<Rightarrow> json option \<Rightarrow> (string \<times> json) result" where
  "json_read_value j keys dflt =
     ebind (json_read_value_loop j keys) (\<lambda>r.
       case r of
         Some kv \<Rightarrow> Inr kv
       | None \<Rightarrow>
           (if keys = [] then Inl NameError
            else case last keys of
                   [] \<Rightarrow> Inl IndexError
                 | c # _ \<Rightarrow>
                     (case dflt of
                        Some d \<Rightarrow> Inr ([c], d)
                      | None \<Rightarrow> abort (''couldn't find key `'' @ [c] @ ''`''))))"

definition json_read_dict :: "json \<Rightarrow> string \<Rightarrow> json option \<Rightarrow> (string \<times> json) list result" where
  "json_read_dict j key dflt =
     ebind (json_read_value j [key] dflt) (\<lambda>(key, data).
       case data of
         JObject items \<Rightarrow> Inr items
       | _ \<Rightarrow> abort (''`'' @ key @ ''` must be a dict''))"

definition json_read_list :: "json \<Rightarrow> string \<Rightarrow> json option \<Rightarrow> json list result" where
  "json_read_list j key dflt =
     ebind (json_read_value j [key] dflt) (\<lambda>(key, data).
       case data of
         JArray xs \<Rightarrow> Inr xs
       | _ \<Rightarrow> abort (''`'' @ key @ ''` must be a list''))"

definition json_read_bool :: "json \<Rightarrow> string \<Rightarrow> json option \<Rightarrow> bool result" where
  "json_read_bool j key dflt =
     ebind (json_read_value j [key] dflt) (\<lambda>(key, data).
       case data of
         JBool b \<Rightarrow> Inr b
       | _ \<Rightarrow> abort (''`'' @ key @ ''` must be a boolean''))"

text \<open>The decimal text of \<^verbatim>\<open>max_len\<close> in the message of \<^verbatim>\<open>json_read_str\<close>.\<close>

fun dec_digits_of :: "nat \<Rightarrow> string" where
  "dec_digits_of n =
     (if n < 10 then [''0123456789'' ! n]
      else dec_digits_of (n div 10) @ [''0123456789'' ! (n mod 10)])"

definition py_str_int :: "int \<Rightarrow> string" where
  "py_str_int v = (if v < 0 then ''-'' @ dec_digits_of (nat (- v)) else dec_digits_of (nat v))"

definition json_read_str :: "json \<Rightarrow> string \<Rightarrow> int \<Rightarrow> json option \<Rightarrow> string result" where
  "json_read_str j key max_len dflt =
     ebind (json_read_value j [key] dflt) (\<lambda>(key, data).
       case data of
         JString s \<Rightarrow>
           ebind (abort_unless (max_len \<le> 0 \<or> int (length s) \<le> max_len)
                    (''string `'' @ key @ ''` must be less than '' @ py_str_int max_len
                       @ '' in length''))
             (\<lambda>_. Inr s)
       | _ \<Rightarrow> abort (''`'' @ key @ ''` must be a string''))"

text \<open>
  The test that four places of the builder repeat: an \<^verbatim>\<open>int\<close> (a \<^verbatim>\<open>bool\<close> is one, with
  \<^verbatim>\<open>True == 1\<close>) is taken as it is, a \<^verbatim>\<open>str\<close> is read in base 16, and anything else reaches
  \<^verbatim>\<open>abort(isinstance(...), msg)\<close>, a call of the one-parameter \<^verbatim>\<open>abort\<close> with two arguments,
  which raises \<^verbatim>\<open>TypeError\<close>.
\<close>

fun int_of_json :: "json \<Rightarrow> int result" where
  "int_of_json (JInt n) = Inr n"
| "int_of_json (JBool b) = Inr (if b then 1 else 0)"
| "int_of_json (JString s) = py_int16 s"
| "int_of_json _ = Inl TypeError"

definition json_read_int ::
  "json \<Rightarrow> string list \<Rightarrow> int \<Rightarrow> int \<Rightarrow> json option \<Rightarrow> int result" where
  "json_read_int j keys min_val max_val dflt =
     ebind (json_read_value j keys dflt) (\<lambda>(key, data).
       ebind (int_of_json data) (\<lambda>val.
         ebind (abort_unless (min_val \<le> val \<and> val \<le> max_val)
                  (''`'' @ key @ ''` must be between '' @ py_hex min_val @ '' and ''
                     @ py_hex max_val))
           (\<lambda>_. Inr val)))"

definition json_read_u64 :: "json \<Rightarrow> string list \<Rightarrow> json option \<Rightarrow> int result" where
  "json_read_u64 j keys dflt = json_read_int j keys 0 (push_bit 64 1 - 1) dflt"

definition json_read_u32 :: "json \<Rightarrow> string list \<Rightarrow> json option \<Rightarrow> int result" where
  "json_read_u32 j keys dflt = json_read_int j keys 0 (push_bit 32 1 - 1) dflt"

definition json_read_u16 :: "json \<Rightarrow> string list \<Rightarrow> json option \<Rightarrow> int result" where
  "json_read_u16 j keys dflt = json_read_int j keys 0 (push_bit 16 1 - 1) dflt"

definition json_read_u8 :: "json \<Rightarrow> string list \<Rightarrow> json option \<Rightarrow> int result" where
  "json_read_u8 j keys dflt = json_read_int j keys 0 (push_bit 8 1 - 1) dflt"

section \<open>Service access control: \<^verbatim>\<open>write_sac\<close>\<close>

fun write_sac_host_loop :: "BinaryWriter \<Rightarrow> json list \<Rightarrow> BinaryWriter result" where
  "write_sac_host_loop writer [] = Inr writer"
| "write_sac_host_loop writer (service # rest) =
     (case service of
        JString s \<Rightarrow>
          ebind (abort_unless (1 \<le> length s \<and> length s \<le> 8)
                   ''services must be between 1 and 8 chars long'') (\<lambda>_.
          ebind (write_u8 writer (0x80 OR (int (length s) - 1))) (\<lambda>writer.
          ebind (write_string writer s (- 1)) (\<lambda>writer.
          write_sac_host_loop writer rest)))
      | _ \<Rightarrow> abort ''services must be strings'')"

fun write_sac_access_loop :: "BinaryWriter \<Rightarrow> json list \<Rightarrow> BinaryWriter result" where
  "write_sac_access_loop writer [] = Inr writer"
| "write_sac_access_loop writer (service # rest) =
     (case service of
        JString s \<Rightarrow>
          ebind (abort_unless (1 \<le> length s \<and> length s \<le> 8)
                   ''services must be between 1 and 8 chars long'') (\<lambda>_.
          ebind (write_u8 writer (int (length s) - 1)) (\<lambda>writer.
          ebind (write_string writer s (- 1)) (\<lambda>writer.
          write_sac_access_loop writer rest)))
      | _ \<Rightarrow> abort ''services must be strings'')"

definition write_sac :: "json \<Rightarrow> BinaryWriter result" where
  "write_sac contents =
     (let writer = BinaryWriter_init in
      ebind (json_read_list contents ''service_host'' None) (\<lambda>service_host.
      ebind (json_read_list contents ''service_access'' None) (\<lambda>service_access.
      ebind (write_sac_host_loop writer service_host) (\<lambda>writer.
      write_sac_access_loop writer service_access))))"

section \<open>Kernel capabilities: \<^verbatim>\<open>write_kc\<close>\<close>

text \<open>
  \<^verbatim>\<open>write_kc\<close> is one Python function, so the variables \<^verbatim>\<open>data\<close> and \<^verbatim>\<open>val\<close> that the
  loop over a \<^verbatim>\<open>syscalls\<close> mapping assigns stay bound for the entries after it; the branch of
  \<^verbatim>\<open>irq_pair\<close> reads both. \<open>None\<close> is a variable that is not bound yet, whose read raises
  \<^verbatim>\<open>UnboundLocalError\<close>, a \<^verbatim>\<open>NameError\<close>.
\<close>

record kc_scope =
  var_data :: "json option"
  var_val :: "int option"

definition is_dict :: "json \<Rightarrow> bool" where
  "is_dict j = (case j of JObject _ \<Rightarrow> True | _ \<Rightarrow> False)"

fun syscalls_loop ::
  "(string \<times> json) list \<Rightarrow> int list \<Rightarrow> kc_scope \<Rightarrow> (int list \<times> kc_scope) result" where
  "syscalls_loop [] groups sc = Inr (groups, sc)"
| "syscalls_loop ((name, d) # rest) groups sc =
     ebind (int_of_json d) (\<lambda>v.
     ebind (abort_unless (0 \<le> v \<and> v \<le> 0xbf) ''syscall values must be between 0 and 0xbf'')
       (\<lambda>_.
     syscalls_loop rest
       (groups[nat (v div 24) := (groups ! nat (v div 24)) OR push_bit (nat (v mod 24)) 1])
       (sc\<lparr>var_data := Some d, var_val := Some v\<rparr>)))"

fun syscalls_emit :: "BinaryWriter \<Rightarrow> nat \<Rightarrow> int list \<Rightarrow> BinaryWriter result" where
  "syscalls_emit writer idx [] = Inr writer"
| "syscalls_emit writer idx (grp # rest) =
     (if grp \<noteq> 0
      then ebind (write_u32 writer
                    ((push_bit 4 1 - 1) OR push_bit 5 grp OR push_bit 29 (int idx)))
             (\<lambda>writer. syscalls_emit writer (idx + 1) rest)
      else syscalls_emit writer (idx + 1) rest)"

fun map_region_loop :: "json list \<Rightarrow> nat \<Rightarrow> int \<Rightarrow> int result" where
  "map_region_loop [] i cap = Inr cap"
| "map_region_loop (region # rest) i cap =
     ebind (abort_unless (is_dict region) ''`map_region` entries must be dicts'') (\<lambda>_.
     ebind (json_read_int region [''region_type''] 0 3 None) (\<lambda>t.
     let cap = cap OR push_bit (11 + 7 * i) t in
     ebind (json_read_bool region ''is_ro'' None) (\<lambda>ro.
     let cap = cap OR (if ro then push_bit (17 + 7 * i) 1 else 0) in
     map_region_loop rest (i + 1) cap)))"

fun irq_pair_loop :: "json list \<Rightarrow> nat \<Rightarrow> int \<Rightarrow> kc_scope \<Rightarrow> int result" where
  "irq_pair_loop [] i cap sc = Inr cap"
| "irq_pair_loop (irq # rest) i cap sc =
     ebind (if irq = JNull then Inr 0x3ff
            else (case var_data sc of
                    None \<Rightarrow> Inl NameError
                  | Some d \<Rightarrow>
                      ebind (int_of_json d) (\<lambda>irq_value.
                      case var_val sc of
                        None \<Rightarrow> Inl NameError
                      | Some v \<Rightarrow>
                          ebind (abort_unless (0 \<le> v \<and> v \<le> push_bit 10 1 - 1)
                                   ''`irq_pair` values must be between 0x0 and 0x3ff'')
                            (\<lambda>_. Inr irq_value))))
       (\<lambda>irq_value. irq_pair_loop rest (i + 1) (cap OR push_bit (11 + i * 10) irq_value) sc)"

text \<open>The body of the loop of \<^verbatim>\<open>write_kc\<close> for the entry \<^verbatim>\<open>cap\<close> at index \<^verbatim>\<open>cap_idx\<close>.\<close>

definition kc_entry ::
  "kc_scope \<Rightarrow> BinaryWriter \<Rightarrow> nat \<Rightarrow> json \<Rightarrow> (kc_scope \<times> BinaryWriter) result" where
  "kc_entry sc writer cap_idx cap =
     ebind (abort_unless (is_dict cap) ''kernel capabilities must be dicts'') (\<lambda>_.
     ebind (abort_unless (cap_idx < 32) ''too many kernel capabilities (max = 32)'') (\<lambda>_.
     ebind (json_read_str cap ''type'' (- 1) None) (\<lambda>cap_type.
     if cap_type = ''kernel_flags'' then
       ebind (json_read_dict cap ''value'' None) (\<lambda>value.
       let c = push_bit 3 1 - 1 in
       ebind (json_read_int (JObject value) [''highest_thread_priority''] 0 63 None) (\<lambda>v.
       let c = c OR push_bit 4 v in
       ebind (json_read_int (JObject value) [''lowest_thread_priority''] 0 63 None) (\<lambda>v.
       let c = c OR push_bit 10 v in
       ebind (json_read_u8 (JObject value) [''lowest_cpu_id''] None) (\<lambda>v.
       let c = c OR push_bit 16 v in
       ebind (json_read_u8 (JObject value) [''highest_cpu_id''] None) (\<lambda>v.
       let c = c OR push_bit 24 v in
       ebind (write_u32 writer c) (\<lambda>writer. Inr (sc, writer)))))))
     else if cap_type = ''syscalls'' then
       ebind (json_read_dict cap ''value'' None) (\<lambda>value.
       ebind (syscalls_loop value (replicate 8 0) sc) (\<lambda>(groups, sc).
       ebind (syscalls_emit writer 0 groups) (\<lambda>writer. Inr (sc, writer))))
     else if cap_type = ''map'' then
       ebind (json_read_dict cap ''value'' None) (\<lambda>value.
       let c = push_bit 6 1 - 1 in
       ebind (json_read_int (JObject value) [''address''] 0 (push_bit 24 1 - 1) None) (\<lambda>v.
       let c = c OR push_bit 7 v in
       ebind (json_read_bool (JObject value) ''is_ro'' None) (\<lambda>b.
       let c = c OR (if b then push_bit 31 1 else 0) in
       ebind (write_u32 writer c) (\<lambda>writer.
       let c = push_bit 6 1 - 1 in
       ebind (json_read_int (JObject value) [''size''] 0 (push_bit 20 1 - 1) None) (\<lambda>v.
       let c = c OR push_bit 7 v in
       ebind (json_read_bool (JObject value) ''is_io'' None) (\<lambda>b.
       let c = c OR (if b then push_bit 31 1 else 0) in
       ebind (write_u32 writer c) (\<lambda>writer. Inr (sc, writer))))))))
     else if cap_type = ''map_page'' then
       \<comment> \<open>\<^verbatim>\<open>cap = (1 << 7) - 1\<close> rebinds \<^verbatim>\<open>cap\<close>, and the reader is then called on that
           integer, not on the entry\<close>
       (let c = push_bit 7 1 - 1 in
        ebind (json_read_int (JInt c) [''value''] 0 (push_bit 24 1 - 1) None) (\<lambda>v.
        let c = c OR push_bit 8 v in
        ebind (write_u32 writer c) (\<lambda>writer. Inr (sc, writer))))
     else if cap_type = ''map_region'' then
       ebind (json_read_list cap ''value'' None) (\<lambda>value.
       ebind (abort_unless (length value \<le> 3) ''`map_region` can have a maximum of 3 regions'')
         (\<lambda>_.
       let c = push_bit 10 1 - 1 in
       ebind (map_region_loop value 0 c) (\<lambda>c.
       ebind (write_u32 writer c) (\<lambda>writer. Inr (sc, writer)))))
     else if cap_type = ''irq_pair'' then
       ebind (json_read_list cap ''value'' None) (\<lambda>value.
       ebind (abort_unless (length value = 2) ''`irq_pair` must contain 2 elements'') (\<lambda>_.
       let c = push_bit 11 1 - 1 in
       ebind (irq_pair_loop value 0 c sc) (\<lambda>c.
       ebind (write_u32 writer c) (\<lambda>writer. Inr (sc, writer)))))
     else if cap_type = ''application_type'' then
       ebind (json_read_int cap [''value''] 0 2 (Some (JInt 0))) (\<lambda>value.
       let c = push_bit 13 1 - 1;
           c = c OR push_bit 14 value in
       ebind (write_u32 writer c) (\<lambda>writer. Inr (sc, writer)))
     else if cap_type = ''min_kernel_version'' then
       ebind (json_read_u16 cap [''value''] None) (\<lambda>value.
       let c = push_bit 14 1 - 1;
           c = c OR push_bit 15 value in
       ebind (write_u32 writer c) (\<lambda>writer. Inr (sc, writer)))
     else if cap_type = ''handle_table_size'' then
       ebind (json_read_int cap [''value''] 0 (push_bit 10 1 - 1) None) (\<lambda>value.
       let c = push_bit 15 1 - 1;
           c = c OR push_bit 16 value in
       ebind (write_u32 writer c) (\<lambda>writer. Inr (sc, writer)))
     else if cap_type = ''debug_flags'' then
       ebind (json_read_dict cap ''value'' None) (\<lambda>value.
       ebind (json_read_bool (JObject value) ''allow_debug'' (Some (JBool False))) (\<lambda>allow_debug.
       ebind (json_read_bool (JObject value) ''force_debug'' (Some (JBool False))) (\<lambda>force_debug.
       ebind (json_read_bool (JObject value) ''force_debug_prod'' (Some (JBool False)))
         (\<lambda>force_debug_prod.
       ebind (abort_unless
                ((of_bool allow_debug :: int) + of_bool force_debug + of_bool force_debug_prod \<le> 1)
                (''only one of `allow_debug`, `force_debug`, ''
                   @ ''or `force_debug_prod` can be set'')) (\<lambda>_.
       let c = push_bit 16 1 - 1;
           c = c OR (if allow_debug then push_bit 17 1 else 0);
           c = c OR (if force_debug_prod then push_bit 18 1 else 0);
           c = c OR (if force_debug then push_bit 19 1 else 0) in
       ebind (write_u32 writer c) (\<lambda>writer. Inr (sc, writer)))))))
     else abort (''unrecognised kernel capability type `'' @ cap_type @ ''`''))))"

fun write_kc_loop :: "kc_scope \<Rightarrow> BinaryWriter \<Rightarrow> nat \<Rightarrow> json list \<Rightarrow> BinaryWriter result" where
  "write_kc_loop sc writer cap_idx [] = Inr writer"
| "write_kc_loop sc writer cap_idx (cap # rest) =
     ebind (kc_entry sc writer cap_idx cap) (\<lambda>(sc, writer).
     write_kc_loop sc writer (cap_idx + 1) rest)"

definition write_kc :: "json \<Rightarrow> BinaryWriter result" where
  "write_kc contents =
     (let writer = BinaryWriter_init in
      ebind (json_read_list contents ''kernel_capabilities'' None) (\<lambda>kernel_caps.
      write_kc_loop \<lparr>var_data = None, var_val = None\<rparr> writer 0 kernel_caps))"

section \<open>The regions: \<^verbatim>\<open>write_acid\<close>, \<^verbatim>\<open>write_aci\<close>, \<^verbatim>\<open>write_meta\<close>\<close>








section \<open>The orchestrator: \<^verbatim>\<open>main\<close>\<close>


section \<open>Notions used to state the layout\<close>

text \<open>
  The padding that \<^verbatim>\<open>align(a)\<close> adds at the cursor \<open>n\<close>: the distance from \<open>n\<close> to the next
  multiple of \<open>a\<close>.
\<close>

definition pad_to :: "nat \<Rightarrow> nat \<Rightarrow> nat" where
  "pad_to a n = (a - n mod a) mod a"

text \<open>
  Following the specification of the service table: one entry is the byte
  \<open>0x80 | (length - 1)\<close> for a hosted name, \<open>length - 1\<close> for an accessible one, followed by
  the raw ASCII bytes of the name.
\<close>

definition sac_entry :: "bool \<Rightarrow> string \<Rightarrow> byte list" where
  "sac_entry hosted s =
     word_of_int ((if hosted then 0x80 else 0) OR (int (length s) - 1)) # map of_char s"

text \<open>
  Following the specification of the \<^verbatim>\<open>syscalls\<close> words: group \<open>g\<close> covers the numbers
  \<open>24 * g\<close> to \<open>24 * g + 23\<close>; bit \<open>i\<close> of its 24-bit bitmap is set exactly when the number
  \<open>24 * g + i\<close> is granted; the word of a group has the tag \<open>0xF\<close> in its low bits, the
  bitmap at bit 5 and the group index at bit 29; one word per group with a bitmap that is not
  zero, in the order of the groups.
\<close>

definition spec_syscall_bitmap :: "int list \<Rightarrow> nat \<Rightarrow> int" where
  "spec_syscall_bitmap vals g =
     horner_sum of_bool 2 (map (\<lambda>i. int (g * 24 + i) \<in> set vals) [0..<24])"

definition spec_syscall_word :: "int list \<Rightarrow> nat \<Rightarrow> int" where
  "spec_syscall_word vals g = 0xF OR push_bit 5 (spec_syscall_bitmap vals g) OR push_bit 29 (int g)"

definition spec_syscall_words :: "int list \<Rightarrow> int list" where
  "spec_syscall_words vals =
     map (spec_syscall_word vals) (filter (\<lambda>g. spec_syscall_bitmap vals g \<noteq> 0) [0..<8])"

text \<open>An item of a \<^verbatim>\<open>syscalls\<close> mapping that the loop accepts, with the number it stands for.\<close>

definition syscall_ok :: "string \<times> json \<Rightarrow> int \<Rightarrow> bool" where
  "syscall_ok item v = (int_of_json (snd item) = Inr v \<and> 0 \<le> v \<and> v \<le> 0xbf)"

text \<open>Inputs of the examples.\<close>

definition syscalls_example :: json where
  "syscalls_example = JObject [(''kernel_capabilities'', JArray [JObject
     [(''type'', JString ''syscalls''),
      (''value'', JObject [(''a'', JInt 0), (''b'', JInt 23), (''c'', JInt 24),
                           (''d'', JInt 191)])]])]"

definition syscalls_duplicate_example :: json where
  "syscalls_duplicate_example = JObject [(''kernel_capabilities'', JArray [JObject
     [(''type'', JString ''syscalls''),
      (''value'', JObject [(''a'', JInt 1), (''b'', JInt 1)])]])]"

definition syscalls_out_of_range_example :: json where
  "syscalls_out_of_range_example = JObject
     [(''type'', JString ''syscalls''),
      (''value'', JObject [(''a'', JInt 1), (''b'', JInt 192)])]"












section \<open>Evaluation rules\<close>

lemma ebind_Inl [simp]: "ebind (Inl e) f = Inl e"
  by (simp add: ebind_def)

lemma ebind_Inr [simp]: "ebind (Inr x) f = f x"
  by (simp add: ebind_def)

text \<open>The continuation of a bind is looked at only once its first argument is a value.\<close>

lemma ebind_weak_cong [cong]: "m = m' \<Longrightarrow> ebind m f = ebind m' f"
  by simp

lemmas reader_defs = json_read_value_def json_read_dict_def json_read_list_def
  json_read_bool_def json_read_str_def json_read_int_def json_read_u64_def json_read_u32_def
  json_read_u16_def json_read_u8_def abort_def abort_unless_def is_dict_def

lemmas writer_defs = BinaryWriter_init_def write_u8_def write_u32_def write_u64_def
  write_uint_def pack_uint_def write_raw_def fill_bytes_def le_bytes_def write_bytes_def
  write_sub_def write_string_def encode_ascii_def seek_def seek_rel_def align_def

section \<open>Kernel capability entries that the encoder mishandles\<close>

text \<open>
  Claim C2 (\<^verbatim>\<open>map_page\<close>): the claim expects one word, the tag \<open>0x7f\<close> in the low 8 bits and
  the page address of the entry's \<^verbatim>\<open>value\<close> field in bits 8 to 31. The branch assigns
  \<^verbatim>\<open>cap = (1 << 7) - 1\<close> first and then reads \<^verbatim>\<open>"value"\<close> from \<^verbatim>\<open>cap\<close>, which is the integer
  127 by then: \<^verbatim>\<open>"value" in 127\<close> raises \<^verbatim>\<open>TypeError\<close>, so no \<^verbatim>\<open>map_page\<close> entry is ever
  encoded. Here for the page address 1.
\<close>

theorem map_page_raises_TypeError:
  "write_kc (JObject [(''kernel_capabilities'',
       JArray [JObject [(''type'', JString ''map_page''), (''value'', JInt 1)]])])
     = Inl TypeError"
  by (simp add: write_kc_def kc_entry_def reader_defs)

text \<open>
  Claim C3 (\<^verbatim>\<open>irq_pair\<close>): the claim expects slot \<open>i\<close> to hold the supplied value. For a slot
  that is not \<^verbatim>\<open>None\<close> the branch reads the variables \<^verbatim>\<open>data\<close> and \<^verbatim>\<open>val\<close> of the
  \<^verbatim>\<open>syscalls\<close> loop instead of the slot. With no \<^verbatim>\<open>syscalls\<close> entry before it the pair
  \<^verbatim>\<open>[5, None]\<close> raises \<^verbatim>\<open>UnboundLocalError\<close>; after a \<^verbatim>\<open>syscalls\<close> entry whose last number
  is 1, slot 0 holds 1 and not 5 (the second word is \<open>0x7FE00FFF\<close>).
\<close>

theorem irq_pair_ignores_slot_value:
  "write_kc (JObject [(''kernel_capabilities'',
       JArray [JObject [(''type'', JString ''irq_pair''), (''value'', JArray [JInt 5, JNull])]])])
     = Inl NameError
   \<and> map_sum id stream (write_kc (JObject [(''kernel_capabilities'',
       JArray [JObject [(''type'', JString ''syscalls''), (''value'', JObject [(''a'', JInt 1)])],
               JObject [(''type'', JString ''irq_pair''),
                        (''value'', JArray [JInt 5, JNull])]])]))
     = Inr [0x4F, 0, 0, 0, 0xFF, 0x0F, 0xE0, 0x7F]"
  by (simp add: write_kc_def kc_entry_def reader_defs writer_defs eval_nat_numeral upt_rec)

section \<open>The writer at the end of its buffer\<close>

text \<open>
  A builder appends: as long as the cursor stands at the end of the buffer, a write appends
  its bytes and a relative seek or an alignment appends zero bytes. A write that lies inside
  the buffer replaces the bytes under it. \<^verbatim>\<open>IndexError\<close> never arises.
\<close>

lemma write_loop_closed:
  "position w + length raw \<le> length (stream w) \<Longrightarrow>
   write_loop w raw = Inr (w\<lparr>stream := take (position w) (stream w) @ raw
                                   @ drop (position w + length raw) (stream w),
                              position := position w + length raw\<rparr>)"
proof (induction raw arbitrary: w)
  case Nil
  then show ?case by simp
next
  case (Cons b raw)
  let ?w = "w\<lparr>stream := (stream w)[position w := b], position := position w + 1\<rparr>"
  from Cons.prems have lt: "position w < length (stream w)" by simp
  from Cons.prems have "position ?w + length raw \<le> length (stream ?w)" by simp
  from Cons.IH [OF this] lt show ?case
    by (simp add: take_Suc_conv_app_nth)
qed

lemma write_raw_at_end:
  "position w = length (stream w) \<Longrightarrow>
   write_raw w raw = Inr (w\<lparr>stream := stream w @ raw, position := position w + length raw\<rparr>)"
  by (cases "raw = []") (simp_all add: write_raw_def fill_bytes_def write_loop_closed)

lemma write_raw_inside:
  "position w + length raw \<le> length (stream w) \<Longrightarrow>
   write_raw w raw = Inr (w\<lparr>stream := take (position w) (stream w) @ raw
                                   @ drop (position w + length raw) (stream w),
                              position := position w + length raw\<rparr>)"
  by (simp add: write_raw_def fill_bytes_def write_loop_closed)

lemma seek_rel_at_end:
  "position w = length (stream w) \<Longrightarrow>
   seek_rel w n = w\<lparr>stream := stream w @ replicate n 0, position := position w + n\<rparr>"
  by (cases "n = 0") (simp_all add: seek_rel_def seek_def fill_bytes_def)

lemma seek_abs_inside:
  "n \<le> length (stream w) \<Longrightarrow> seek w n False = w\<lparr>position := n\<rparr>"
  by (simp add: seek_def fill_bytes_def)

lemma seek_abs_beyond:
  "length (stream w) \<le> n \<Longrightarrow>
   seek w n False = w\<lparr>stream := stream w @ replicate (n - length (stream w)) 0, position := n\<rparr>"
  by (cases "n = length (stream w)") (simp_all add: seek_def fill_bytes_def)

lemma align_delta: "0 < a \<Longrightarrow> nat (- int n mod int a) = pad_to a n"
proof -
  assume a: "0 < a"
  have "- int n mod int a = (int a - int n mod int a) mod int a"
    by (metis mod_diff_right_eq uminus_add_conv_diff add.commute mod_add_self1)
  also have "\<dots> = int ((a - n mod a) mod a)"
    using a by (simp add: zmod_int)
  finally have "- int n mod int a = int ((a - n mod a) mod a)" .
  then show ?thesis by (simp add: pad_to_def)
qed

lemma align_at_end:
  "position w = length (stream w) \<Longrightarrow> 0 < a \<Longrightarrow>
   align w a = Inr (w\<lparr>stream := stream w @ replicate (pad_to a (position w)) 0,
                       position := position w + pad_to a (position w)\<rparr>)"
  by (simp add: align_def Let_def align_delta seek_rel_at_end [unfolded seek_rel_def])

lemma pad_to_aligned: "0 < a \<Longrightarrow> (n + pad_to a n) mod a = 0"
  unfolding pad_to_def
  by (metis add.commute le_add_diff_inverse2 mod_add_right_eq mod_le_divisor mod_self mod_add_left_eq)

lemma length_le_bytes [simp]: "length (le_bytes n v) = n"
  by (simp add: le_bytes_def)

lemma write_uint_at_end:
  "position w = length (stream w) \<Longrightarrow> byte_order w = little \<Longrightarrow> 0 \<le> v \<Longrightarrow> v < 2 ^ (8 * n) \<Longrightarrow>
   write_uint w n v = Inr (w\<lparr>stream := stream w @ le_bytes n v, position := position w + n\<rparr>)"
  by (simp add: write_uint_def pack_uint_def write_raw_at_end)

lemma write_u8_at_end:
  "position w = length (stream w) \<Longrightarrow> byte_order w = little \<Longrightarrow> 0 \<le> v \<Longrightarrow> v < 256 \<Longrightarrow>
   write_u8 w v = Inr (w\<lparr>stream := stream w @ [word_of_int v], position := position w + 1\<rparr>)"
  by (simp add: write_u8_def write_uint_at_end le_bytes_def)

lemma write_string_at_end:
  "position w = length (stream w) \<Longrightarrow> \<forall>c \<in> set s. of_char c < (128 :: nat) \<Longrightarrow>
   write_string w s (- 1) = Inr (w\<lparr>stream := stream w @ map of_char s,
                                    position := position w + length s\<rparr>)"
  by (simp add: write_string_def encode_ascii_def write_raw_at_end)

lemma host_tag_range:
  "1 \<le> n \<Longrightarrow> n \<le> 8 \<Longrightarrow> 0 \<le> 0x80 OR (int n - 1) \<and> 0x80 OR (int n - 1) < 256"
proof -
  assume n: "1 \<le> n" "n \<le> 8"
  have "(0x80 :: int) OR (int n - 1) < 2 ^ 8"
    by (rule OR_upper) (use n in auto)
  with n show ?thesis by simp
qed

lemma write_sac_host_loop_closed:
  "position w = length (stream w) \<Longrightarrow> byte_order w = little \<Longrightarrow>
   \<forall>s \<in> set names. 1 \<le> length s \<and> length s \<le> 8 \<and> (\<forall>c \<in> set s. of_char c < (128 :: nat)) \<Longrightarrow>
   write_sac_host_loop w (map JString names)
     = Inr (w\<lparr>stream := stream w @ concat (map (sac_entry True) names),
               position := position w + length (concat (map (sac_entry True) names))\<rparr>)"
proof (induction names arbitrary: w)
  case Nil
  then show ?case by simp
next
  case (Cons s names)
  from Cons.prems have s: "1 \<le> length s" "length s \<le> 8" "\<forall>c \<in> set s. of_char c < (128 :: nat)"
    by simp_all
  note r = host_tag_range [OF s(1,2)]
  let ?w = "w\<lparr>stream := stream w @ sac_entry True s, position := position w + length (sac_entry True s)\<rparr>"
  have u8: "write_u8 w (0x80 OR (int (length s) - 1))
      = Inr (w\<lparr>stream := stream w @ [word_of_int (0x80 OR (int (length s) - 1))],
                position := position w + 1\<rparr>)"
    using Cons.prems(1,2) r by (intro write_u8_at_end) simp_all
  have step: "write_sac_host_loop w (map JString (s # names)) = write_sac_host_loop ?w (map JString names)"
    using Cons.prems(1,2) s
    by (simp add: abort_unless_def u8 write_string_at_end sac_entry_def)
  have "position ?w = length (stream ?w)" "byte_order ?w = little"
    using Cons.prems(1,2) by simp_all
  from Cons.IH [OF this] Cons.prems(3) show ?case
    unfolding step by simp
qed

lemma write_sac_access_loop_closed:
  "position w = length (stream w) \<Longrightarrow> byte_order w = little \<Longrightarrow>
   \<forall>s \<in> set names. 1 \<le> length s \<and> length s \<le> 8 \<and> (\<forall>c \<in> set s. of_char c < (128 :: nat)) \<Longrightarrow>
   write_sac_access_loop w (map JString names)
     = Inr (w\<lparr>stream := stream w @ concat (map (sac_entry False) names),
               position := position w + length (concat (map (sac_entry False) names))\<rparr>)"
proof (induction names arbitrary: w)
  case Nil
  then show ?case by simp
next
  case (Cons s names)
  from Cons.prems have s: "1 \<le> length s" "length s \<le> 8" "\<forall>c \<in> set s. of_char c < (128 :: nat)"
    by simp_all
  let ?w = "w\<lparr>stream := stream w @ sac_entry False s, position := position w + length (sac_entry False s)\<rparr>"
  have u8: "write_u8 w (int (length s) - 1)
      = Inr (w\<lparr>stream := stream w @ [word_of_int (int (length s) - 1)],
                position := position w + 1\<rparr>)"
    using Cons.prems(1,2) s(1,2) by (intro write_u8_at_end) (cases s; simp)+
  have step: "write_sac_access_loop w (map JString (s # names)) = write_sac_access_loop ?w (map JString names)"
    using Cons.prems(1,2) s
    by (simp add: abort_unless_def u8 write_string_at_end sac_entry_def)
  have "position ?w = length (stream ?w)" "byte_order ?w = little"
    using Cons.prems(1,2) by simp_all
  from Cons.IH [OF this] Cons.prems(3) show ?case
    unfolding step by simp
qed

section \<open>Service access control\<close>

text \<open>
  Claim C6: the service table holds the hosted entries in input order, then the accessible
  entries in input order; a hosted name of length \<open>L\<close> gives the byte \<open>0x80 | (L - 1)\<close> and
  its raw ASCII bytes, an accessible name the byte \<open>L - 1\<close> and its raw ASCII bytes. Names
  are 1 to 8 ASCII characters; the lists are the ones the reader returns for
  \<^verbatim>\<open>service_host\<close> and \<^verbatim>\<open>service_access\<close>.
\<close>

theorem service_table_layout:
  assumes "json_read_list contents ''service_host'' None = Inr (map JString hosted)"
    and "json_read_list contents ''service_access'' None = Inr (map JString accessible)"
    and "\<forall>s \<in> set (hosted @ accessible).
           1 \<le> length s \<and> length s \<le> 8 \<and> (\<forall>c \<in> set s. of_char c < (128 :: nat))"
  shows "map_sum id stream (write_sac contents)
           = Inr (concat (map (\<lambda>s. word_of_int (0x80 OR (int (length s) - 1)) # map of_char s) hosted)
                  @ concat (map (\<lambda>s. word_of_int (int (length s) - 1) # map of_char s) accessible))"
proof -
  have h: "\<forall>s \<in> set hosted. 1 \<le> length s \<and> length s \<le> 8 \<and> (\<forall>c \<in> set s. of_char c < (128 :: nat))"
    and a: "\<forall>s \<in> set accessible. 1 \<le> length s \<and> length s \<le> 8 \<and> (\<forall>c \<in> set s. of_char c < (128 :: nat))"
    using assms(3) by auto
  have e: "sac_entry True = (\<lambda>s. word_of_int (0x80 OR (int (length s) - 1)) # map of_char s)"
    "sac_entry False = (\<lambda>s. word_of_int (int (length s) - 1) # map of_char s)"
    by (simp_all add: sac_entry_def fun_eq_iff)
  show ?thesis
    using assms(1,2)
    by (simp add: write_sac_def BinaryWriter_init_def write_sac_host_loop_closed [OF _ _ h]
        write_sac_access_loop_closed [OF _ _ a] e)
qed

text \<open>
  The example of the specification, \<^verbatim>\<open>hosted = ["fsp-srv"]\<close> and
  \<^verbatim>\<open>accessible = ["pm:shell", "hid"]\<close>: \<open>0x86 'fsp-srv' 0x07 'pm:shell' 0x02 'hid'\<close>.
\<close>

theorem service_table_example:
  "map_sum id stream (write_sac (JObject [(''service_host'', JArray [JString ''fsp-srv'']),
       (''service_access'', JArray [JString ''pm:shell'', JString ''hid''])]))
     = Inr ([0x86] @ map of_char ''fsp-srv'' @ [0x07] @ map of_char ''pm:shell''
            @ [0x02] @ map of_char ''hid'')"
  using service_table_layout [of "JObject [(''service_host'', JArray [JString ''fsp-srv'']),
       (''service_access'', JArray [JString ''pm:shell'', JString ''hid''])]"
       "[''fsp-srv'']" "[''pm:shell'', ''hid'']"]
  by (simp add: json_read_list_def json_read_value_def)

section \<open>The \<^verbatim>\<open>syscalls\<close> entry\<close>

lemma bit_spec_syscall_bitmap:
  "bit (spec_syscall_bitmap vals g) i \<longleftrightarrow> i < 24 \<and> int (g * 24 + i) \<in> set vals"
  by (auto simp add: spec_syscall_bitmap_def bit_horner_sum_bit_iff)

lemma spec_syscall_bitmap_range:
  "0 \<le> spec_syscall_bitmap vals g \<and> spec_syscall_bitmap vals g < 2 ^ 24"
  using horner_sum_of_bool_2_less [where ?'a = int, of "map (\<lambda>i. int (g * 24 + i) \<in> set vals) [0..<24]"]
    horner_sum_nonnegative [where ?'a = int, of "map (\<lambda>i. int (g * 24 + i) \<in> set vals) [0..<24]"]
  by (simp add: spec_syscall_bitmap_def)

lemma spec_syscall_word_range:
  assumes "g < 8"
  shows "0 \<le> spec_syscall_word vals g \<and> spec_syscall_word vals g < 2 ^ (8 * 4)"
proof -
  note r = spec_syscall_bitmap_range [of vals g]
  have a: "push_bit 5 (spec_syscall_bitmap vals g) < 2 ^ 32"
    using r by (simp add: push_bit_eq_mult)
  have b: "push_bit 29 (int g) < 2 ^ 32"
    using assms by (simp add: push_bit_eq_mult)
  have "(0xF :: int) OR push_bit 5 (spec_syscall_bitmap vals g) < 2 ^ 32"
    by (rule OR_upper) (use a in simp_all)
  then have "(0xF OR push_bit 5 (spec_syscall_bitmap vals g)) OR push_bit 29 (int g) < 2 ^ 32"
    by (rule OR_upper [rotated]) (use b r in simp_all)
  with r show ?thesis
    by (simp add: spec_syscall_word_def or.assoc)
qed

lemma slot_of_syscall:
  assumes "0 \<le> v" "g < 8"
  shows "(g = nat (v div 24) \<and> i = nat (v mod 24)) \<longleftrightarrow> (i < 24 \<and> int (g * 24 + i) = v)"
proof
  assume "g = nat (v div 24) \<and> i = nat (v mod 24)"
  with assms show "i < 24 \<and> int (g * 24 + i) = v"
    by (auto simp add: nat_less_iff)
next
  assume a: "i < 24 \<and> int (g * 24 + i) = v"
  then have "v div 24 = int g" "v mod 24 = int i"
    by auto
  then show "g = nat (v div 24) \<and> i = nat (v mod 24)" by simp
qed

lemma syscalls_loop_bits:
  assumes "list_all2 syscall_ok items vals" "length groups = 8"
  shows "\<exists>groups' sc'. syscalls_loop items groups sc = Inr (groups', sc') \<and> length groups' = 8
           \<and> (\<forall>g < 8. \<forall>i. bit (groups' ! g) i \<longleftrightarrow>
                 bit (groups ! g) i \<or> (i < 24 \<and> int (g * 24 + i) \<in> set vals))"
  using assms
proof (induction arbitrary: groups sc rule: list_all2_induct)
  case Nil
  then show ?case by simp
next
  case (Cons item items v vals)
  obtain name d where item: "item = (name, d)" by (cases item)
  from Cons.hyps(1) item have v: "int_of_json d = Inr v" "0 \<le> v" "v \<le> 0xbf"
    by (simp_all add: syscall_ok_def)
  let ?k = "nat (v div 24)"
  let ?groups = "groups[?k := (groups ! ?k) OR push_bit (nat (v mod 24)) 1]"
  let ?sc = "sc\<lparr>var_data := Some d, var_val := Some v\<rparr>"
  have k: "?k < 8" using v by simp
  have step: "syscalls_loop (item # items) groups sc = syscalls_loop items ?groups ?sc"
    using v by (simp add: item abort_unless_def)
  from Cons.prems have len: "length ?groups = 8" by simp
  from Cons.IH [OF len, of ?sc] obtain groups' sc' where
    r: "syscalls_loop items ?groups ?sc = Inr (groups', sc')" "length groups' = 8"
       "\<forall>g < 8. \<forall>i. bit (groups' ! g) i \<longleftrightarrow>
           bit (?groups ! g) i \<or> (i < 24 \<and> int (g * 24 + i) \<in> set vals)"
    by blast
  have upd: "bit (?groups ! g) i \<longleftrightarrow> bit (groups ! g) i \<or> (i < 24 \<and> int (g * 24 + i) = v)"
    if "g < 8" for g i
  proof (cases "g = ?k")
    case True
    then have "bit (?groups ! g) i \<longleftrightarrow> bit (groups ! g) i \<or> i = nat (v mod 24)"
      using Cons.prems k by (auto simp add: bit_simps)
    with True slot_of_syscall [OF v(2) that, of i] show ?thesis by auto
  next
    case False
    with slot_of_syscall [OF v(2) that, of i] show ?thesis by auto
  qed
  show ?case
    unfolding step using r upd by auto
qed

lemma syscalls_loop_from_zero:
  assumes "list_all2 syscall_ok items vals"
  shows "\<exists>sc'. syscalls_loop items (replicate 8 0) sc
                 = Inr (map (spec_syscall_bitmap vals) [0..<8], sc')"
proof -
  from syscalls_loop_bits [OF assms, of "replicate 8 0" sc] obtain groups' sc' where
    r: "syscalls_loop items (replicate 8 0) sc = Inr (groups', sc')" "length groups' = 8"
       "\<forall>g < 8. \<forall>i. bit (groups' ! g) i \<longleftrightarrow>
           bit (replicate 8 (0::int) ! g) i \<or> (i < 24 \<and> int (g * 24 + i) \<in> set vals)"
    by auto
  have "groups' = map (spec_syscall_bitmap vals) [0..<8]"
  proof (rule nth_equalityI)
    show "length groups' = length (map (spec_syscall_bitmap vals) [0..<8])"
      using r(2) by simp
  next
    fix g assume "g < length groups'"
    then have g: "g < 8" using r(2) by simp
    have "groups' ! g = spec_syscall_bitmap vals g"
      by (rule bit_eqI) (use r(3) g in \<open>simp add: bit_spec_syscall_bitmap\<close>)
    with g show "groups' ! g = map (spec_syscall_bitmap vals) [0..<8] ! g"
      by simp
  qed
  with r(1) show ?thesis by blast
qed

lemma write_u32_at_end:
  "position w = length (stream w) \<Longrightarrow> byte_order w = little \<Longrightarrow> 0 \<le> v \<Longrightarrow> v < 2 ^ 32 \<Longrightarrow>
   write_u32 w v = Inr (w\<lparr>stream := stream w @ le_bytes 4 v, position := position w + 4\<rparr>)"
  by (simp add: write_u32_def write_uint_at_end)

lemma syscalls_emit_closed:
  "position w = length (stream w) \<Longrightarrow> byte_order w = little \<Longrightarrow> idx + n \<le> 8 \<Longrightarrow>
   syscalls_emit w idx (map (spec_syscall_bitmap vals) [idx..<idx + n])
     = Inr (w\<lparr>stream := stream w @ concat (map (le_bytes 4) (map (spec_syscall_word vals)
                   (filter (\<lambda>g. spec_syscall_bitmap vals g \<noteq> 0) [idx..<idx + n]))),
               position := position w + length (concat (map (le_bytes 4) (map (spec_syscall_word vals)
                   (filter (\<lambda>g. spec_syscall_bitmap vals g \<noteq> 0) [idx..<idx + n]))))\<rparr>)"
proof (induction n arbitrary: idx w)
  case 0
  then show ?case by simp
next
  case (Suc n)
  have upt: "[idx..<idx + Suc n] = idx # [Suc idx..<Suc idx + n]"
    by (simp add: upt_rec)
  from Suc.prems have idx: "idx < 8" "Suc idx + n \<le> 8" by simp_all
  show ?case
  proof (cases "spec_syscall_bitmap vals idx = 0")
    case True
    with Suc.IH [OF Suc.prems(1,2) idx(2)] show ?thesis
      unfolding upt by simp
  next
    case False
    note r = spec_syscall_word_range [OF idx(1), of vals]
    let ?w = "w\<lparr>stream := stream w @ le_bytes 4 (spec_syscall_word vals idx),
                  position := position w + 4\<rparr>"
    have u32: "write_u32 w (spec_syscall_word vals idx) = Inr ?w"
      using Suc.prems(1,2) r by (intro write_u32_at_end) simp_all
    have "position ?w = length (stream ?w)" "byte_order ?w = little"
      using Suc.prems(1,2) by simp_all
    from Suc.IH [OF this idx(2)] False u32 show ?thesis
      unfolding upt by (simp add: spec_syscall_word_def)
  qed
qed

lemma kc_entry_syscalls:
  assumes "is_dict cap" "cap_idx < 32"
    and "json_read_str cap ''type'' (- 1) None = Inr ''syscalls''"
    and "json_read_dict cap ''value'' None = Inr items"
    and "list_all2 syscall_ok items vals"
    and "position w = length (stream w)" "byte_order w = little"
  shows "\<exists>sc'. kc_entry sc w cap_idx cap
           = Inr (sc', w\<lparr>stream := stream w @ concat (map (le_bytes 4) (spec_syscall_words vals)),
                         position := position w
                           + length (concat (map (le_bytes 4) (spec_syscall_words vals)))\<rparr>)"
proof -
  from syscalls_loop_from_zero [OF assms(5), of sc] obtain sc' where
    l: "syscalls_loop items (replicate 8 0) sc = Inr (map (spec_syscall_bitmap vals) [0..<8], sc')"
    by blast
  have e: "syscalls_emit w 0 (map (spec_syscall_bitmap vals) [0..<8])
      = Inr (w\<lparr>stream := stream w @ concat (map (le_bytes 4) (spec_syscall_words vals)),
                position := position w
                  + length (concat (map (le_bytes 4) (spec_syscall_words vals)))\<rparr>)"
    using syscalls_emit_closed [OF assms(6,7), of 0 8 vals]
    by (simp add: spec_syscall_words_def)
  have "kc_entry sc w cap_idx cap
      = ebind (syscalls_emit w 0 (map (spec_syscall_bitmap vals) [0..<8]))
          (\<lambda>writer. Inr (sc', writer))"
    using assms(1-4) l by (simp add: kc_entry_def abort_unless_def)
  then show ?thesis
    unfolding e by simp
qed

lemma syscalls_loop_first_bad:
  assumes "list_all2 syscall_ok pre vals" "int_of_json d = Inr v" "v < 0 \<or> 0xbf < v"
  shows "syscalls_loop (pre @ (name, d) # post) groups sc
           = Inl (SysExit ''syscall values must be between 0 and 0xbf'')"
  using assms
proof (induction arbitrary: groups sc rule: list_all2_induct)
  case Nil
  then show ?case by (auto simp add: abort_unless_def abort_def)
next
  case (Cons item items u vals)
  obtain n e where item: "item = (n, e)" by (cases item)
  from Cons.hyps(1) item have "int_of_json e = Inr u" "0 \<le> u" "u \<le> 0xbf"
    by (simp_all add: syscall_ok_def)
  with Cons.IH [OF Cons.prems] show ?case
    by (simp add: item abort_unless_def)
qed

lemma syscalls_loop_bad_item:
  assumes "item \<in> set items" "\<not> (\<exists>v. syscall_ok item v)"
  shows "isl (syscalls_loop items groups sc)"
  using assms
proof (induction items arbitrary: groups sc)
  case Nil
  then show ?case by simp
next
  case (Cons x items)
  obtain n e where x: "x = (n, e)" by (cases x)
  show ?case
  proof (cases "int_of_json e")
    case (Inl err)
    then show ?thesis by (simp add: x)
  next
    case (Inr u)
    show ?thesis
    proof (cases "0 \<le> u \<and> u \<le> 0xbf")
      case False
      with Inr show ?thesis by (auto simp add: x abort_unless_def abort_def)
    next
      case True
      with Inr have "syscall_ok x u" by (simp add: x syscall_ok_def)
      with Cons.prems have "item \<in> set items" by auto
      from Cons.IH [OF this Cons.prems(2)] Inr True show ?thesis
        by (simp add: x abort_unless_def)
    qed
  qed
qed

lemma all_ok_list_all2:
  "\<forall>x \<in> set xs. \<exists>y. P x y \<Longrightarrow> \<exists>ys. list_all2 P xs ys"
proof (induction xs)
  case Nil
  then show ?case by simp
next
  case (Cons x xs)
  then obtain y ys where "P x y" "list_all2 P xs ys" by auto
  then have "list_all2 P (x # xs) (y # ys)" by simp
  then show ?case by blast
qed

text \<open>
  Claim C1, amended. The claim's example is wrong by one group: 24 is number 0 of group 1, so
  the numbers 0, 23, 24 and 191 give three words, not two. In general a configuration whose
  only capability entry is a \<^verbatim>\<open>syscalls\<close> mapping of numbers in \<open>[0, 0xBF]\<close> encodes as one
  little-endian 32-bit word per group that is not empty, in the order of the groups, with the
  tag \<open>0xF\<close>, the 24-bit presence bitmap at bit 5 and the group index at bit 29.
\<close>

theorem syscalls_words:
  assumes "json_read_list contents ''kernel_capabilities'' None = Inr [cap]"
    and "is_dict cap"
    and "json_read_str cap ''type'' (- 1) None = Inr ''syscalls''"
    and "json_read_dict cap ''value'' None = Inr items"
    and "list_all2 syscall_ok items vals"
  shows "map_sum id stream (write_kc contents)
           = Inr (concat (map (le_bytes 4) (spec_syscall_words vals)))"
proof -
  from kc_entry_syscalls [OF assms(2) _ assms(3-5), of 0 BinaryWriter_init
      "\<lparr>var_data = None, var_val = None\<rparr>"]
  obtain sc' where "kc_entry \<lparr>var_data = None, var_val = None\<rparr> BinaryWriter_init 0 cap
      = Inr (sc', BinaryWriter_init\<lparr>stream := stream BinaryWriter_init
               @ concat (map (le_bytes 4) (spec_syscall_words vals)),
             position := position BinaryWriter_init
               + length (concat (map (le_bytes 4) (spec_syscall_words vals)))\<rparr>)"
    by (auto simp add: BinaryWriter_init_def)
  with assms(1) show ?thesis
    by (simp add: write_kc_def BinaryWriter_init_def)
qed

text \<open>
  The numbers 0, 23, 24 and 191: group 0 with bits 0 and 23, group 1 with bit 0, group 7 with
  bit 23.
\<close>

theorem syscalls_example_three_words:
  "map_sum id stream (write_kc syscalls_example)
     = Inr (le_bytes 4 (0xF OR push_bit 5 (push_bit 0 1 OR push_bit 23 1) OR push_bit 29 0)
          @ le_bytes 4 (0xF OR push_bit 5 (push_bit 0 1) OR push_bit 29 1)
          @ le_bytes 4 (0xF OR push_bit 5 (push_bit 23 1) OR push_bit 29 7))"
  using syscalls_words [of syscalls_example
      "JObject [(''type'', JString ''syscalls''),
                (''value'', JObject [(''a'', JInt 0), (''b'', JInt 23), (''c'', JInt 24),
                                     (''d'', JInt 191)])]"
      "[(''a'', JInt 0), (''b'', JInt 23), (''c'', JInt 24), (''d'', JInt 191)]"
      "[0, 23, 24, 191]"]
  by (simp add: syscalls_example_def reader_defs syscall_ok_def spec_syscall_words_def
      spec_syscall_word_def spec_syscall_bitmap_def le_bytes_def eval_nat_numeral upt_rec)

text \<open>The claim as stated, two words for these numbers, does not hold.\<close>

theorem syscalls_example_not_two_words:
  "map_sum id (length \<circ> stream) (write_kc syscalls_example) \<noteq> Inr (2 * 4)"
  by (simp add: syscalls_example_def write_kc_def kc_entry_def reader_defs writer_defs
      eval_nat_numeral upt_rec)

text \<open>
  Claim C7, amended. A \<^verbatim>\<open>syscalls\<close> entry is rejected exactly when some item of its mapping
  is not an integer (or hexadecimal text) in \<open>[0, 0xBF]\<close>; when the first such item is a
  number out of range, the error is the abort with the range message. Whether two items carry
  the same number plays no part: duplicates are accepted.
\<close>

theorem syscalls_entry_validation:
  assumes "is_dict cap" "cap_idx < 32"
    and "json_read_str cap ''type'' (- 1) None = Inr ''syscalls''"
    and "json_read_dict cap ''value'' None = Inr items"
    and "position w = length (stream w)" "byte_order w = little"
  shows "(isl (kc_entry sc w cap_idx cap) \<longleftrightarrow> (\<exists>item \<in> set items. \<not> (\<exists>v. syscall_ok item v)))
       \<and> (\<forall>pre name d post v.
            items = pre @ (name, d) # post \<and> (\<forall>item \<in> set pre. \<exists>u. syscall_ok item u)
              \<and> int_of_json d = Inr v \<and> (v < 0 \<or> 0xbf < v)
            \<longrightarrow> kc_entry sc w cap_idx cap
                  = Inl (SysExit ''syscall values must be between 0 and 0xbf''))"
proof (intro conjI allI impI iffI)
  assume "\<exists>item \<in> set items. \<not> (\<exists>v. syscall_ok item v)"
  then obtain item where "item \<in> set items" "\<not> (\<exists>v. syscall_ok item v)" by blast
  from syscalls_loop_bad_item [OF this, of "replicate 8 0" sc]
  obtain e where "syscalls_loop items (replicate 8 0) sc = Inl e"
    by (cases "syscalls_loop items (replicate 8 0) sc") auto
  with assms(1-4) show "isl (kc_entry sc w cap_idx cap)"
    by (simp add: kc_entry_def abort_unless_def)
next
  assume f: "isl (kc_entry sc w cap_idx cap)"
  show "\<exists>item \<in> set items. \<not> (\<exists>v. syscall_ok item v)"
  proof (rule ccontr)
    assume "\<not> (\<exists>item \<in> set items. \<not> (\<exists>v. syscall_ok item v))"
    then have "\<forall>item \<in> set items. \<exists>v. syscall_ok item v" by blast
    from all_ok_list_all2 [OF this] obtain vals where "list_all2 syscall_ok items vals" ..
    from kc_entry_syscalls [OF assms(1-4) this assms(5,6), of sc] f show False by auto
  qed
next
  fix pre name d post v
  assume a: "items = pre @ (name, d) # post \<and> (\<forall>item \<in> set pre. \<exists>u. syscall_ok item u)
      \<and> int_of_json d = Inr v \<and> (v < 0 \<or> 0xbf < v)"
  then have "\<forall>item \<in> set pre. \<exists>u. syscall_ok item u" by blast
  from all_ok_list_all2 [OF this] obtain vals where "list_all2 syscall_ok pre vals" ..
  from syscalls_loop_first_bad [OF this, of d v name post "replicate 8 0" sc] a
  have "syscalls_loop items (replicate 8 0) sc
      = Inl (SysExit ''syscall values must be between 0 and 0xbf'')"
    by simp
  with assms(1-4) show "kc_entry sc w cap_idx cap
      = Inl (SysExit ''syscall values must be between 0 and 0xbf'')"
    by (simp add: kc_entry_def abort_unless_def)
qed

text \<open>The mapping \<^verbatim>\<open>{"a": 1, "b": 192}\<close> is rejected with the range message.\<close>

theorem syscalls_out_of_range_rejected:
  "isl (kc_entry \<lparr>var_data = None, var_val = None\<rparr> BinaryWriter_init 0
          syscalls_out_of_range_example)
   \<and> kc_entry \<lparr>var_data = None, var_val = None\<rparr> BinaryWriter_init 0
          syscalls_out_of_range_example
       = Inl (SysExit ''syscall values must be between 0 and 0xbf'')"
proof -
  have h: "is_dict syscalls_out_of_range_example" "(0::nat) < 32"
    "json_read_str syscalls_out_of_range_example ''type'' (- 1) None = Inr ''syscalls''"
    "json_read_dict syscalls_out_of_range_example ''value'' None
       = Inr [(''a'', JInt 1), (''b'', JInt 192)]"
    "position BinaryWriter_init = length (stream BinaryWriter_init)"
    "byte_order BinaryWriter_init = little"
    by (simp_all add: syscalls_out_of_range_example_def reader_defs BinaryWriter_init_def)
  note t = syscalls_entry_validation [OF h, of "\<lparr>var_data = None, var_val = None\<rparr>"]
  have bad: "\<exists>item \<in> set [(''a'', JInt 1), (''b'', JInt 192)]. \<not> (\<exists>v. syscall_ok item v)"
    by (simp add: syscall_ok_def)
  have first: "[(''a'', JInt 1), (''b'', JInt 192)] = [(''a'', JInt 1)] @ (''b'', JInt 192) # []
      \<and> (\<forall>item \<in> set [(''a'', JInt 1)]. \<exists>u. syscall_ok item u)
      \<and> int_of_json (JInt 192) = Inr 192 \<and> ((192::int) < 0 \<or> 0xbf < (192::int))"
    by (simp add: syscall_ok_def)
  from t bad first show ?thesis by blast
qed

text \<open>
  The claim as stated fails on duplicates: the mapping \<^verbatim>\<open>{"a": 1, "b": 1}\<close> is encoded, as
  the single word \<open>0x4F\<close>.
\<close>

theorem syscalls_duplicates_accepted:
  "\<not> isl (write_kc syscalls_duplicate_example)
   \<and> map_sum id stream (write_kc syscalls_duplicate_example) = Inr [0x4F, 0, 0, 0]"
  by (simp add: syscalls_duplicate_example_def write_kc_def kc_entry_def reader_defs writer_defs
      eval_nat_numeral upt_rec)

section \<open>Rejected configurations\<close>
































end
